theory Spec2Isabelle
  imports Complex_Main
begin

section \<open>Data model\<close>

text \<open>
  The Python class \<^verbatim>\<open>DiffusionTimeCDF\<close> of \<^verbatim>\<open>src/src/pydiffusionCDF.py\<close> wraps a
  compiled class of the same name (module \<^verbatim>\<open>diffusionCDF\<close>). The compiled object owns
  \<^verbatim>\<open>beta\<close>, \<^verbatim>\<open>tMax\<close>, \<^verbatim>\<open>time\<close>, the array \<^verbatim>\<open>CDF\<close> and the random source; the
  wrapper adds \<^verbatim>\<open>_last_saved_time\<close>, \<^verbatim>\<open>_save_interval\<close>, \<^verbatim>\<open>id\<close> and \<^verbatim>\<open>save_dir\<close>.
  The subclass relation is a record extension. Extended-precision values (\<^verbatim>\<open>np.quad\<close>)
  and Python floats are idealised as reals, with the float operations the wrapper
  performs taken from the environment; the state of the random source is an opaque
  type \<open>'g\<close>.
\<close>

type_synonym quad = real
type_synonym path = string

record 'g kernel =
  beta :: real
  tMax :: nat
  time :: nat
  CDF :: "quad list"
  rng :: 'g

text \<open>The attributes \<^verbatim>\<open>id\<close> and \<^verbatim>\<open>save_dir\<close> are plain Python attributes: nothing
  checks what is assigned to them, and \<^verbatim>\<open>fromFiles\<close> assigns whatever the scalars file
  holds. They are values of the kind JSON carries: \<^verbatim>\<open>None\<close>, an integer, a float or a
  string.\<close>

datatype json = JNull | JInt int | JFloat real | JStr string

text \<open>The attribute \<^verbatim>\<open>id\<close> is \<open>sys_id\<close> here (\<open>id\<close> is the identity function of HOL);
  an unset id is \<open>JNull\<close>.\<close>

record 'g engine = "'g kernel" +
  last_saved_time :: real
  save_interval :: real
  sys_id :: json
  save_dir :: json

text \<open>Exceptions. \<open>CapacityExceeded n\<close> is the \<^verbatim>\<open>ValueError\<close> of \<^verbatim>\<open>iterateTimeStep\<close>
  (its message carries \<^verbatim>\<open>tMax\<close>). \<open>FileNotFoundError\<close> and \<open>PermissionError\<close> come from
  opening a file; \<open>NegativeDimension\<close>, \<open>AllocationError\<close> and \<open>BroadcastError\<close> are the
  \<^verbatim>\<open>ValueError\<close> and \<^verbatim>\<open>MemoryError\<close> of numpy; the others are raised while loading
  files, by the \<^verbatim>\<open>assert\<close> of \<^verbatim>\<open>evolveAndGetProbAndV\<close>, or by the constructor.\<close>

datatype error =
    CapacityExceeded nat
  | AssertionError
  | FileNotFoundError
  | PermissionError
  | MalformedFile
  | KeyError string
  | TypeError
  | NegativeDimension
  | AllocationError
  | BroadcastError
  | PreconditionViolation

subsection \<open>The environment: files, clocks and floats\<close>

text \<open>A JSON object, as \<^verbatim>\<open>json.dump\<close> writes the scalars, is the list of its members in
  insertion order.\<close>

type_synonym json_obj = "(string \<times> json) list"

datatype cell = CInt int | CQuad quad | CStr string

type_synonym row = "cell list"

text \<open>File contents are kept parsed: the lines of a quad array, a JSON object, or the
  rows of a CSV file. Reading a missing file or a file of another kind fails. Opening a
  file for writing fails where the environment says so: the directory is missing
  (\<^verbatim>\<open>FileNotFoundError\<close>) or not writable (\<^verbatim>\<open>PermissionError\<close>). A file that has been
  opened is written in full.\<close>

datatype fcontent = QuadFile "quad list" | JsonFile json_obj | CsvFile "row list"

datatype open_failure = NoSuchDirectory | NotPermitted

text \<open>The environment of the process.
  \<^item> \<open>files\<close> and \<open>open_fault\<close>: the file system, and the paths that cannot be opened for
    writing.
  \<^item> \<open>alloc_limit\<close>: the number of entries of the largest array numpy can allocate here.
  \<^item> \<open>cpu_clock\<close>, \<open>wall_clock\<close>, \<open>instant\<close>: the two clocks of Python's \<^verbatim>\<open>time\<close> module,
    \<^verbatim>\<open>time.process_time()\<close> (CPU seconds of the process, the only clock the wrapper
    reads) and the wall clock (\<^verbatim>\<open>time.time()\<close>). Both are functions of a logical
    instant, which every reading advances, so two readings may differ.
  \<^item> \<open>float_sub\<close>, \<open>float_of_int\<close>, \<open>float_repr\<close>: the interpreter's float arithmetic.
    Floats are idealised as reals, but the difference of two floats is the rounded one,
    an integer converted to a float is rounded, and the text of a float is what
    \<^verbatim>\<open>repr\<close> prints; none of the three is assumed to be exact.\<close>

record world =
  files :: "path \<Rightarrow> fcontent option"
  open_fault :: "path \<Rightarrow> open_failure option"
  alloc_limit :: nat
  cpu_clock :: "nat \<Rightarrow> real"
  wall_clock :: "nat \<Rightarrow> real"
  instant :: nat
  float_sub :: "real \<Rightarrow> real \<Rightarrow> real"
  float_of_int :: "int \<Rightarrow> real"
  float_repr :: "real \<Rightarrow> string"

definition process_time :: "world \<Rightarrow> real \<times> world" where
  "process_time w = (cpu_clock w (instant w), w\<lparr>instant := Suc (instant w)\<rparr>)"

definition wall_time_now :: "world \<Rightarrow> real" where
  "wall_time_now w = wall_clock w (instant w)"

text \<open>\<^verbatim>\<open>open(p, mode)\<close> for writing or appending: the exception it raises, if any. Once
  the file is open, \<open>write_file\<close> stores its new content.\<close>

definition open_write :: "path \<Rightarrow> world \<Rightarrow> error option" where
  "open_write p w =
     (case open_fault w p of
        None \<Rightarrow> None
      | Some NoSuchDirectory \<Rightarrow> Some FileNotFoundError
      | Some NotPermitted \<Rightarrow> Some PermissionError)"

definition write_file :: "path \<Rightarrow> fcontent \<Rightarrow> world \<Rightarrow> world" where
  "write_file p c w = w\<lparr>files := (files w)(p \<mapsto> c)\<rparr>"

subsection \<open>Paths and string formatting\<close>

text \<open>\<^verbatim>\<open>os.path.join(a, b)\<close> of \<^verbatim>\<open>posixpath\<close>, for two components that are strings;
  \<open>os_path_join\<close> is the call on an attribute, a \<^verbatim>\<open>TypeError\<close> when it is not a string.\<close>

definition path_join :: "path \<Rightarrow> string \<Rightarrow> path" where
  "path_join a b =
     (if b \<noteq> [] \<and> hd b = CHR ''/'' then b
      else if a = [] \<or> last a = CHR ''/'' then a @ b
      else a @ ''/'' @ b)"

definition os_path_join :: "json \<Rightarrow> string \<Rightarrow> error + path" where
  "os_path_join a b = (case a of JStr d \<Rightarrow> Inr (path_join d b) | _ \<Rightarrow> Inl TypeError)"

text \<open>\<^verbatim>\<open>str\<close> of a Python integer, and the text of a value inside an f-string.\<close>

definition digit_char :: "nat \<Rightarrow> char" where
  "digit_char d = ''0123456789'' ! d"

function str_nat :: "nat \<Rightarrow> string" where
  "str_nat n = (if n < 10 then [digit_char n] else str_nat (n div 10) @ [digit_char (n mod 10)])"
  by pat_completeness auto
termination
  by (relation "measure (\<lambda>n. n)") auto

definition str_int :: "int \<Rightarrow> string" where
  "str_int i = (if i < 0 then CHR ''-'' # str_nat (nat (- i)) else str_nat (nat i))"

definition format_value :: "world \<Rightarrow> json \<Rightarrow> string" where
  "format_value w v =
     (case v of
        JNull \<Rightarrow> ''None''
      | JInt i \<Rightarrow> str_int i
      | JFloat r \<Rightarrow> float_repr w r
      | JStr x \<Rightarrow> x)"

section \<open>The compiled kernel\<close>

text \<open>The array update of one time step, given the random source, \<^verbatim>\<open>beta\<close>, the
  current time and the current array; it returns the new array and the advanced
  random source. The compiled code that computes it is not part of the inspected
  sources, so it is a parameter of every operation that steps the engine.\<close>

type_synonym 'g update = "'g \<Rightarrow> real \<Rightarrow> nat \<Rightarrow> quad list \<Rightarrow> quad list \<times> 'g"

text \<open>Modelled from the spec: the compiled \<^verbatim>\<open>diffusionCDF.DiffusionTimeCDF.iterateTimeStep\<close>
  is missing from the sources. Section 4.1 of the specification says that it advances
  \<^verbatim>\<open>time\<close> by exactly 1, draws from the random source and rewrites the array; the
  formula of the rewrite is left open there, hence the parameter \<open>upd\<close>.\<close>

definition kernel_iterateTimeStep ::
    "'g update \<Rightarrow> ('g, 'a) kernel_scheme \<Rightarrow> ('g, 'a) kernel_scheme" where
  "kernel_iterateTimeStep upd k =
     (case upd (rng k) (beta k) (time k) (CDF k) of
        (c, g) \<Rightarrow> k\<lparr>CDF := c, rng := g, time := Suc (time k)\<rparr>)"

text \<open>Modelled from the spec: the compiled \<^verbatim>\<open>getSaveCDF\<close> is missing from the sources.
  Sections 4.1 and 6 of the specification say that it returns the valid prefix, the
  entries of indices \<open>0..time\<close>.\<close>

definition getSaveCDF :: "('g, 'a) kernel_scheme \<Rightarrow> quad list" where
  "getSaveCDF k = take (Suc (time k)) (CDF k)"

section \<open>Checkpointing\<close>

text \<open>Modelled from the spec: \<^verbatim>\<open>fileIO.saveArrayQuad\<close> and \<^verbatim>\<open>fileIO.loadArrayQuad\<close> are
  missing from the sources. Section 6 of the specification says that the file holds one
  value per line, ordered by index, and that the text of a value reads back exactly;
  section 7 says that a failure to write is raised to the caller. A file that cannot be
  opened is left as it was.\<close>

definition saveArrayQuad :: "path \<Rightarrow> quad list \<Rightarrow> world \<Rightarrow> error option \<times> world" where
  "saveArrayQuad p xs w =
     (case open_write p w of
        Some e \<Rightarrow> (Some e, w)
      | None \<Rightarrow> (None, write_file p (QuadFile xs) w))"

definition loadArrayQuad :: "path \<Rightarrow> world \<Rightarrow> error + quad list" where
  "loadArrayQuad p w =
     (case files w p of
        None \<Rightarrow> Inl FileNotFoundError
      | Some (QuadFile xs) \<Rightarrow> Inr xs
      | Some _ \<Rightarrow> Inl MalformedFile)"

text \<open>\<^verbatim>\<open>json.dump(vars, f)\<close> on a file that \<^verbatim>\<open>open(scalars_file, "w+")\<close> has opened, and
  \<^verbatim>\<open>json.load\<close>.\<close>

definition json_dump :: "path \<Rightarrow> json_obj \<Rightarrow> world \<Rightarrow> world" where
  "json_dump p obj w = write_file p (JsonFile obj) w"

definition json_load :: "path \<Rightarrow> world \<Rightarrow> error + json_obj" where
  "json_load p w =
     (case files w p of
        None \<Rightarrow> Inl FileNotFoundError
      | Some (JsonFile obj) \<Rightarrow> Inr obj
      | Some _ \<Rightarrow> Inl MalformedFile)"

text \<open>The two file names of \<^verbatim>\<open>saveState\<close>: an f-string with the id, joined to
  \<^verbatim>\<open>save_dir\<close>.\<close>

definition cdf_file_of :: "'g engine \<Rightarrow> world \<Rightarrow> error + path" where
  "cdf_file_of s w = os_path_join (save_dir s) (''CDF'' @ format_value w (sys_id s) @ ''.txt'')"

definition scalars_file_of :: "'g engine \<Rightarrow> world \<Rightarrow> error + path" where
  "scalars_file_of s w =
     os_path_join (save_dir s) (''Scalars'' @ format_value w (sys_id s) @ ''.json'')"

definition scalars_of :: "'g engine \<Rightarrow> json_obj" where
  "scalars_of s =
     [(''time'', JInt (int (time s))),
      (''beta'', JFloat (beta s)),
      (''tMax'', JInt (int (tMax s))),
      (''id'', sys_id s),
      (''save_dir'', save_dir s)]"

text \<open>\<^verbatim>\<open>saveState\<close>: no statement of it looks at whether \<^verbatim>\<open>id\<close> is set; the f-strings
  format \<^verbatim>\<open>None\<close> as the text \<^verbatim>\<open>None\<close>. The result is the exception raised, if any,
  and the environment. The array file is written before the scalars file is opened, so
  a failure of the second \<^verbatim>\<open>open\<close> leaves the first file written.\<close>

definition saveState :: "'g engine \<Rightarrow> world \<Rightarrow> error option \<times> world" where
  "saveState s w =
     (case cdf_file_of s w of
        Inl e \<Rightarrow> (Some e, w)
      | Inr cdf_file \<Rightarrow>
          (case scalars_file_of s w of
             Inl e \<Rightarrow> (Some e, w)
           | Inr scalars_file \<Rightarrow>
               (case saveArrayQuad cdf_file (getSaveCDF s) w of
                  (Some e, w1) \<Rightarrow> (Some e, w1)
                | (None, w1) \<Rightarrow>
                    (let vars = scalars_of s
                     in case open_write scalars_file w1 of
                          Some e \<Rightarrow> (Some e, w1)
                        | None \<Rightarrow> (None, json_dump scalars_file vars w1)))))"

section \<open>Evolution\<close>

text \<open>\<^verbatim>\<open>iterateTimeStep\<close>: the throttled save, then the capacity check, then the
  compiled step. \<open>throttled_save\<close> is the first \<^verbatim>\<open>if\<close> of the method: one reading of
  \<^verbatim>\<open>time.process_time()\<close> for the comparison and, after a save, a second one for
  \<^verbatim>\<open>_last_saved_time\<close>; the difference of line 200 is the interpreter's float
  subtraction. An exception of \<^verbatim>\<open>saveState\<close> leaves the method at once. An exception
  leaves the object as mutated so far, so the state is returned beside the error.\<close>

definition throttled_save :: "'g engine \<Rightarrow> world \<Rightarrow> error option \<times> 'g engine \<times> world" where
  "throttled_save s w =
     (case process_time w of
        (now, w1) \<Rightarrow>
          if float_sub w now (last_saved_time s) > save_interval s then
            (case saveState s w1 of
               (Some e, w2) \<Rightarrow> (Some e, s, w2)
             | (None, w2) \<Rightarrow>
                 (case process_time w2 of
                    (now', w3) \<Rightarrow> (None, s\<lparr>last_saved_time := now'\<rparr>, w3)))
          else (None, s, w1))"

text \<open>The comparison of line 200, on its own: the save is due.\<close>

definition save_due :: "'g engine \<Rightarrow> world \<Rightarrow> bool" where
  "save_due s w =
     (float_sub w (cpu_clock w (instant w)) (last_saved_time s) > save_interval s)"

definition iterateTimeStep ::
    "'g update \<Rightarrow> 'g engine \<Rightarrow> world \<Rightarrow> error option \<times> 'g engine \<times> world" where
  "iterateTimeStep upd s w =
     (case throttled_save s w of
        (Some e, s1, w1) \<Rightarrow> (Some e, s1, w1)
      | (None, s1, w1) \<Rightarrow>
          if time s1 \<ge> tMax s1 then (Some (CapacityExceeded (tMax s1)), s1, w1)
          else (None, kernel_iterateTimeStep upd s1, w1))"

text \<open>\<^verbatim>\<open>evolveToTime(time)\<close>: \<^verbatim>\<open>while self.time < time: self.iterateTimeStep()\<close>.
  The target is a Python integer; an exception of a step ends the loop.\<close>

function evolveToTime ::
    "'g update \<Rightarrow> int \<Rightarrow> 'g engine \<Rightarrow> world \<Rightarrow> error option \<times> 'g engine \<times> world" where
  "evolveToTime upd t s w =
     (if int (time s) < t then
        (case iterateTimeStep upd s w of
           (Some e, s', w') \<Rightarrow> (Some e, s', w')
         | (None, s', w') \<Rightarrow> evolveToTime upd t s' w')
      else (None, s, w))"
  by pat_completeness auto
termination
  apply (relation "measure (\<lambda>(upd, t, s, w). nat (t - int (time s)))")
   apply simp
  apply (auto simp: iterateTimeStep_def throttled_save_def process_time_def
          kernel_iterateTimeStep_def split: if_splits prod.splits option.splits)
  done

declare evolveToTime.simps [simp del]

text \<open>\<^verbatim>\<open>evolveTimesteps(num)\<close>: \<^verbatim>\<open>for _ in range(num): self.iterateTimeStep()\<close>;
  \<^verbatim>\<open>range(num)\<close> is empty for \<^verbatim>\<open>num <= 0\<close>.\<close>

fun evolveTimesteps_loop ::
    "'g update \<Rightarrow> nat \<Rightarrow> 'g engine \<Rightarrow> world \<Rightarrow> error option \<times> 'g engine \<times> world" where
  "evolveTimesteps_loop upd 0 s w = (None, s, w)"
| "evolveTimesteps_loop upd (Suc n) s w =
     (case iterateTimeStep upd s w of
        (Some e, s', w') \<Rightarrow> (Some e, s', w')
      | (None, s', w') \<Rightarrow> evolveTimesteps_loop upd n s' w')"

definition evolveTimesteps ::
    "'g update \<Rightarrow> int \<Rightarrow> 'g engine \<Rightarrow> world \<Rightarrow> error option \<times> 'g engine \<times> world" where
  "evolveTimesteps upd num s w = evolveTimesteps_loop upd (nat num) s w"

text \<open>The specification's reference for both: \<open>n\<close> calls of \<^verbatim>\<open>iterateTimeStep()\<close>
  written one after the other by the caller. The first \<open>n - 1\<close> calls run, and if none
  of them raised, the \<open>n\<close>-th call is made on the state they left.\<close>

primrec sequential_calls ::
    "'g update \<Rightarrow> nat \<Rightarrow> 'g engine \<Rightarrow> world \<Rightarrow> error option \<times> 'g engine \<times> world" where
  "sequential_calls upd 0 s w = (None, s, w)"
| "sequential_calls upd (Suc n) s w =
     (case sequential_calls upd n s w of
        (Some e, s', w') \<Rightarrow> (Some e, s', w')
      | (None, s', w') \<Rightarrow> iterateTimeStep upd s' w')"

section \<open>Construction and loading\<close>

text \<open>Modelled from the spec: the compiled constructor is missing from the sources.
  Section 4.1 of the specification says that \<^verbatim>\<open>tMax\<close> must be a positive integer and
  \<^verbatim>\<open>beta\<close> positive, that the array has \<open>tMax + 1\<close> zero entries and that \<^verbatim>\<open>time\<close>
  is 0. The state \<open>g0\<close> of the new object's random source is a parameter.\<close>

definition kernel_construct :: "'g \<Rightarrow> real \<Rightarrow> int \<Rightarrow> error + 'g kernel" where
  "kernel_construct g0 b tm =
     (if tm \<le> 0 \<or> b \<le> 0 then Inl PreconditionViolation
      else Inr \<lparr>beta = b, tMax = nat tm, time = 0, CDF = replicate (nat tm + 1) 0, rng = g0\<rparr>)"

text \<open>\<^verbatim>\<open>__init__\<close>: the compiled constructor, then the wrapper's four attributes.\<close>

definition DiffusionTimeCDF_init ::
    "'g \<Rightarrow> real \<Rightarrow> int \<Rightarrow> world \<Rightarrow> (error + 'g engine) \<times> world" where
  "DiffusionTimeCDF_init g0 b tm w =
     (case kernel_construct g0 b tm of
        Inl e \<Rightarrow> (Inl e, w)
      | Inr k \<Rightarrow>
          (case process_time w of
             (now, w') \<Rightarrow>
               (Inr \<lparr>beta = beta k, tMax = tMax k, time = time k, CDF = CDF k, rng = rng k,
                     last_saved_time = now, save_interval = 3600 * 6,
                     sys_id = JNull, save_dir = JStr ''.''\<rparr>, w')))"

definition bindE :: "error + 'a \<Rightarrow> ('a \<Rightarrow> error + 'b) \<Rightarrow> error + 'b" where
  "bindE m f = (case m of Inl e \<Rightarrow> Inl e | Inr x \<Rightarrow> f x)"

text \<open>\<^verbatim>\<open>vars[key]\<close>, and the conversions the uses of a value force: \<^verbatim>\<open>vars["tMax"] + 1\<close>
  as a dimension and \<^verbatim>\<open>vars["time"] + 1\<close> as a slice bound must be integers, and
  \<^verbatim>\<open>beta\<close> is passed to the compiled constructor as a float. The values of \<^verbatim>\<open>id\<close> and
  \<^verbatim>\<open>save_dir\<close> are assigned as they are.\<close>

definition json_get :: "json_obj \<Rightarrow> string \<Rightarrow> error + json" where
  "json_get vars k = (case map_of vars k of None \<Rightarrow> Inl (KeyError k) | Some v \<Rightarrow> Inr v)"

definition as_int :: "json \<Rightarrow> error + int" where
  "as_int v = (case v of JInt i \<Rightarrow> Inr i | _ \<Rightarrow> Inl TypeError)"

definition as_float :: "world \<Rightarrow> json \<Rightarrow> error + real" where
  "as_float w v =
     (case v of JFloat r \<Rightarrow> Inr r | JInt i \<Rightarrow> Inr (float_of_int w i) | _ \<Rightarrow> Inl TypeError)"

text \<open>\<^verbatim>\<open>np.zeros(n, dtype=np.quad)\<close>: numpy refuses a negative dimension, a dimension of
  \<open>2^63\<close> or more, and an array that the process cannot allocate. The slice assignment
  \<^verbatim>\<open>cdf[:k] = v\<close> of numpy: the slice stops at \<open>k\<close> clipped to the array (a negative \<open>k\<close>
  counts from the end), and \<open>v\<close> must have the slice's length or length 1 (it is then
  repeated).\<close>

definition allocatable :: "world \<Rightarrow> nat \<Rightarrow> bool" where
  "allocatable w n = (int n < 2 ^ 63 \<and> n \<le> alloc_limit w)"

definition np_zeros :: "world \<Rightarrow> int \<Rightarrow> error + quad list" where
  "np_zeros w n =
     (if n < 0 then Inl NegativeDimension
      else if \<not> allocatable w (nat n) then Inl AllocationError
      else Inr (replicate (nat n) 0))"

definition assign_prefix :: "quad list \<Rightarrow> int \<Rightarrow> quad list \<Rightarrow> error + quad list" where
  "assign_prefix cdf k v =
     (let n = int (length cdf);
          stop = nat (if k < 0 then max 0 (n + k) else min k n)
      in if length v = stop then Inr (v @ drop stop cdf)
         else if length v = 1 then Inr (replicate stop (hd v) @ drop stop cdf)
         else Inl BroadcastError)"

text \<open>\<^verbatim>\<open>fromFiles(cdf_file, scalars_file)\<close>. The setter of \<^verbatim>\<open>time\<close> takes an unsigned
  64-bit integer, so a value outside that range is a \<^verbatim>\<open>TypeError\<close>.\<close>

definition fromFiles ::
    "'g \<Rightarrow> path \<Rightarrow> path \<Rightarrow> world \<Rightarrow> (error + 'g engine) \<times> world" where
  "fromFiles g0 cdf_file scalars_file w =
     (case bindE (json_load scalars_file w) (\<lambda>vars.
           bindE (loadArrayQuad cdf_file w) (\<lambda>load_cdf.
           bindE (bindE (json_get vars ''tMax'') as_int) (\<lambda>tm.
           bindE (np_zeros w (tm + 1)) (\<lambda>zeros.
           bindE (bindE (json_get vars ''time'') as_int) (\<lambda>t.
           bindE (assign_prefix zeros (t + 1) load_cdf) (\<lambda>cdf.
           bindE (bindE (json_get vars ''beta'') (as_float w)) (\<lambda>b.
           Inr (vars, cdf, b, tm, t)))))))) of
        Inl e \<Rightarrow> (Inl e, w)
      | Inr (vars, cdf, b, tm, t) \<Rightarrow>
          (case DiffusionTimeCDF_init g0 b tm w of
             (Inl e, w') \<Rightarrow> (Inl e, w')
           | (Inr d, w') \<Rightarrow>
               (bindE (if t < 0 \<or> t \<ge> 2 ^ 64 then Inl TypeError else Inr (d\<lparr>time := nat t\<rparr>))
                  (\<lambda>d1.
                bindE (json_get vars ''id'') (\<lambda>i.
                bindE (json_get vars ''save_dir'') (\<lambda>sd.
                Inr (d1\<lparr>sys_id := i, save_dir := sd, CDF := cdf\<rparr>)))), w')))"

section \<open>Quantile search\<close>

text \<open>The compiled single search is not part of the inspected sources: it is a
  parameter, a function of the array, the time and the quantile.\<close>

type_synonym quantile_search = "quad list \<Rightarrow> nat \<Rightarrow> quad \<Rightarrow> int"

definition findQuantile :: "quantile_search \<Rightarrow> ('g, 'a) kernel_scheme \<Rightarrow> quad \<Rightarrow> int" where
  "findQuantile fq k quantile = fq (CDF k) (time k) quantile"

text \<open>Modelled from the spec: the compiled \<^verbatim>\<open>findQuantiles\<close> is missing from the sources.
  Sections 4.2 and 8 of the specification say that the batch is sorted and swept in
  descending order of the quantiles, and that the batched search agrees with the
  per-call search; its positions are those of the descending quantiles, in that order.\<close>

definition kernel_findQuantiles ::
    "quantile_search \<Rightarrow> ('g, 'a) kernel_scheme \<Rightarrow> quad list \<Rightarrow> int list" where
  "kernel_findQuantiles fq k quantiles = map (findQuantile fq k) (rev (sort quantiles))"

text \<open>\<^verbatim>\<open>findQuantiles(quantiles, descending=False)\<close> of the wrapper.\<close>

definition findQuantiles ::
    "quantile_search \<Rightarrow> ('g, 'a) kernel_scheme \<Rightarrow> quad list \<Rightarrow> bool \<Rightarrow> int list" where
  "findQuantiles fq k quantiles descending =
     (if descending then kernel_findQuantiles fq k quantiles
      else (let returnVals = kernel_findQuantiles fq k quantiles in rev returnVals))"

section \<open>Derived CSV outputs\<close>

text \<open>A file opened with \<^verbatim>\<open>open(file, "a")\<close> is buffered: \<^verbatim>\<open>writer.writerow\<close> puts a
  row in the buffer of the handle, and only \<^verbatim>\<open>f.flush()\<close> and \<^verbatim>\<open>f.close()\<close> are
  certain to move the buffer to the file. The rows of \<open>files\<close> are what a crash leaves.
  \<open>csv_open\<close> is what a successful \<^verbatim>\<open>open\<close> does; the three operations first ask
  \<open>open_write\<close> whether it raises.\<close>

record handle =
  h_path :: path
  h_pending :: "row list"

definition rows_of :: "fcontent option \<Rightarrow> row list" where
  "rows_of c = (case c of Some (CsvFile rs) \<Rightarrow> rs | _ \<Rightarrow> [])"

definition csv_open :: "path \<Rightarrow> world \<Rightarrow> handle \<times> world" where
  "csv_open p w =
     (\<lparr>h_path = p, h_pending = []\<rparr>,
      (case files w p of None \<Rightarrow> write_file p (CsvFile []) w | Some _ \<Rightarrow> w))"

definition csv_writerow :: "handle \<Rightarrow> row \<Rightarrow> handle" where
  "csv_writerow f r = f\<lparr>h_pending := h_pending f @ [r]\<rparr>"

definition csv_flush :: "handle \<Rightarrow> world \<Rightarrow> handle \<times> world" where
  "csv_flush f w =
     (f\<lparr>h_pending := []\<rparr>,
      write_file (h_path f) (CsvFile (rows_of (files w (h_path f)) @ h_pending f)) w)"

definition csv_close :: "handle \<Rightarrow> world \<Rightarrow> world" where
  "csv_close f w = snd (csv_flush f w)"

text \<open>The compiled \<^verbatim>\<open>getGumbelVariance\<close> and \<^verbatim>\<open>getProbandV\<close>, and \<^verbatim>\<open>str\<close> of a quad,
  are not part of the inspected sources: they are parameters.\<close>

type_synonym gumbel_variance = "quad list \<Rightarrow> nat \<Rightarrow> quad list \<Rightarrow> quad list"
type_synonym prob_and_v = "quad list \<Rightarrow> nat \<Rightarrow> quad \<Rightarrow> quad \<times> real"

text \<open>\<^verbatim>\<open>evolveAndGetVariance(times, nParticles, file, append)\<close>: the loop, then the whole
  operation. An exception of \<^verbatim>\<open>evolveToTime\<close> leaves the loop with the handle as it is.\<close>

fun evolveAndGetVariance_loop ::
    "'g update \<Rightarrow> quantile_search \<Rightarrow> gumbel_variance \<Rightarrow> int list \<Rightarrow> quad list \<Rightarrow>
     handle \<Rightarrow> 'g engine \<Rightarrow> world \<Rightarrow> error option \<times> handle \<times> 'g engine \<times> world" where
  "evolveAndGetVariance_loop upd fq gv [] nParticles f s w = (None, f, s, w)"
| "evolveAndGetVariance_loop upd fq gv (t # ts) nParticles f s w =
     (case evolveToTime upd t s w of
        (Some e, s1, w1) \<Rightarrow> (Some e, f, s1, w1)
      | (None, s1, w1) \<Rightarrow>
          (let discrete = gv (CDF s1) (time s1) nParticles;
               quantiles = findQuantiles fq s1 nParticles False;
               row = [CInt (int (time s1))] @ map CInt quantiles @ map CQuad discrete;
               f1 = csv_writerow f row
           in case csv_flush f1 w1 of
                (f2, w2) \<Rightarrow> evolveAndGetVariance_loop upd fq gv ts nParticles f2 s1 w2))"

definition evolveAndGetVariance ::
    "'g update \<Rightarrow> quantile_search \<Rightarrow> gumbel_variance \<Rightarrow> (quad \<Rightarrow> string) \<Rightarrow>
     int list \<Rightarrow> quad list \<Rightarrow> path \<Rightarrow> bool \<Rightarrow> 'g engine \<Rightarrow> world \<Rightarrow>
     error option \<times> 'g engine \<times> world" where
  "evolveAndGetVariance upd fq gv str_quad ts nParticles file_name appending s w =
     (case open_write file_name w of
        Some e \<Rightarrow> (Some e, s, w)
      | None \<Rightarrow>
     (case csv_open file_name w of
        (f, w0) \<Rightarrow>
          (case (if \<not> appending then
                   (let header = [CStr ''time''] @ map (\<lambda>N. CStr (str_quad N)) nParticles
                                 @ map (\<lambda>N. CStr (''var'' @ str_quad N)) nParticles
                    in csv_flush (csv_writerow f header) w0)
                 else (f, w0)) of
             (f1, w1) \<Rightarrow>
               (case evolveAndGetVariance_loop upd fq gv ts nParticles f1 s w1 of
                  (Some e, f2, s2, w2) \<Rightarrow> (Some e, s2, w2)
                | (None, f2, s2, w2) \<Rightarrow> (None, s2, csv_close f2 w2)))))"

text \<open>\<^verbatim>\<open>evolveAndSaveQuantile(time, quantiles, file, append)\<close>. The loop rebinds
  \<^verbatim>\<open>quantiles\<close> to its descending sort and calls \<^verbatim>\<open>findQuantiles\<close> with the default
  \<^verbatim>\<open>descending=False\<close>; it has no \<^verbatim>\<open>f.flush()\<close>, neither after the header nor after
  a row.\<close>

fun evolveAndSaveQuantile_loop ::
    "'g update \<Rightarrow> quantile_search \<Rightarrow> int list \<Rightarrow> quad list \<Rightarrow>
     handle \<Rightarrow> 'g engine \<Rightarrow> world \<Rightarrow> error option \<times> handle \<times> 'g engine \<times> world" where
  "evolveAndSaveQuantile_loop upd fq [] quantiles f s w = (None, f, s, w)"
| "evolveAndSaveQuantile_loop upd fq (t # ts) quantiles f s w =
     (case evolveToTime upd t s w of
        (Some e, s1, w1) \<Rightarrow> (Some e, f, s1, w1)
      | (None, s1, w1) \<Rightarrow>
          (let quantiles1 = rev (sort quantiles);
               NthQuantiles = findQuantiles fq s1 quantiles1 False;
               row = [CInt (int (time s1))] @ map CInt NthQuantiles;
               f1 = csv_writerow f row
           in evolveAndSaveQuantile_loop upd fq ts quantiles1 f1 s1 w1))"

definition evolveAndSaveQuantile ::
    "'g update \<Rightarrow> quantile_search \<Rightarrow> (quad \<Rightarrow> string) \<Rightarrow>
     int list \<Rightarrow> quad list \<Rightarrow> path \<Rightarrow> bool \<Rightarrow> 'g engine \<Rightarrow> world \<Rightarrow>
     error option \<times> 'g engine \<times> world" where
  "evolveAndSaveQuantile upd fq str_quad ts quantiles file_name appending s w =
     (case open_write file_name w of
        Some e \<Rightarrow> (Some e, s, w)
      | None \<Rightarrow>
     (case csv_open file_name w of
        (f, w0) \<Rightarrow>
          (let f1 = (if \<not> appending then
                       csv_writerow f ([CStr ''time''] @ map (\<lambda>q. CStr (str_quad q)) quantiles)
                     else f)
           in case evolveAndSaveQuantile_loop upd fq ts quantiles f1 s w0 of
                (Some e, f2, s2, w2) \<Rightarrow> (Some e, s2, w2)
              | (None, f2, s2, w2) \<Rightarrow> (None, s2, csv_close f2 w2))))"

text \<open>\<^verbatim>\<open>evolveAndGetProbAndV(quantile, time, save_file)\<close>.\<close>

fun evolveAndGetProbAndV_loop ::
    "'g update \<Rightarrow> prob_and_v \<Rightarrow> quad \<Rightarrow> int list \<Rightarrow>
     handle \<Rightarrow> 'g engine \<Rightarrow> world \<Rightarrow> error option \<times> handle \<times> 'g engine \<times> world" where
  "evolveAndGetProbAndV_loop upd pv quantile [] f s w = (None, f, s, w)"
| "evolveAndGetProbAndV_loop upd pv quantile (t # ts) f s w =
     (case evolveToTime upd t s w of
        (Some e, s1, w1) \<Rightarrow> (Some e, f, s1, w1)
      | (None, s1, w1) \<Rightarrow>
          (case pv (CDF s1) (time s1) quantile of
             (prob, v) \<Rightarrow>
               (let row = [CInt (int (time s1)), CQuad prob, CQuad v];
                    f1 = csv_writerow f row
                in case csv_flush f1 w1 of
                     (f2, w2) \<Rightarrow> evolveAndGetProbAndV_loop upd pv quantile ts f2 s1 w2)))"

definition evolveAndGetProbAndV ::
    "'g update \<Rightarrow> prob_and_v \<Rightarrow> quad \<Rightarrow> int list \<Rightarrow> path \<Rightarrow> 'g engine \<Rightarrow> world \<Rightarrow>
     error option \<times> 'g engine \<times> world" where
  "evolveAndGetProbAndV upd pv quantile ts save_file s w =
     (if \<not> quantile \<ge> 1 then (Some AssertionError, s, w)
      else
        (case open_write save_file w of
           Some e \<Rightarrow> (Some e, s, w)
         | None \<Rightarrow>
        (case csv_open save_file w of
           (f, w0) \<Rightarrow>
             (let header = [CStr ''time'', CStr ''prob'', CStr ''v''];
                  f1 = csv_writerow f header
              in case evolveAndGetProbAndV_loop upd pv quantile ts f1 s w0 of
                   (Some e, f2, s2, w2) \<Rightarrow> (Some e, s2, w2)
                 | (None, f2, s2, w2) \<Rightarrow> (None, s2, csv_close f2 w2)))))"

section \<open>Concrete inputs\<close>

text \<open>A small engine, environment and kernel on which the theorems below are run:
  capacity 2, the array \<open>[1, 1/2, 0]\<close> at time 1, id 7, an empty file system in which
  every file can be opened, clocks that advance one second per reading, and exact float
  arithmetic. The update halves every entry and counts the draws; the search returns
  the time.\<close>

definition example_update :: "nat update" where
  "example_update g b t c = (map (\<lambda>x. x / 2) c, Suc g)"

definition example_search :: quantile_search where
  "example_search c t q = int t"

definition example_engine :: "nat engine" where
  "example_engine =
     \<lparr>beta = 1, tMax = 2, time = 1, CDF = [1, 1 / 2, 0], rng = 0,
      last_saved_time = 0, save_interval = 3600 * 6, sys_id = JInt 7, save_dir = JStr ''.''\<rparr>"

definition example_world :: world where
  "example_world =
     \<lparr>files = Map.empty, open_fault = (\<lambda>p. None), alloc_limit = 1000,
      cpu_clock = (\<lambda>n. real n), wall_clock = (\<lambda>n. real n), instant = 0,
      float_sub = (\<lambda>a b. a - b), float_of_int = (\<lambda>i. of_int i),
      float_repr = (\<lambda>r. ''float'')\<rparr>"

text \<open>The engine and environment that \<^verbatim>\<open>DiffusionTimeCDF(beta=1, tMax=2)\<close> leaves in the
  example environment; an environment whose CPU clock has passed the save interval; the
  same with no directory to write to, and with a directory that is not writable; and an
  idle process: 30000 seconds of wall-clock time pass between two readings, one second
  of CPU time.\<close>

definition fresh_engine :: "nat engine" where
  "fresh_engine =
     \<lparr>beta = 1, tMax = 2, time = 0, CDF = [0, 0, 0], rng = 0,
      last_saved_time = 0, save_interval = 3600 * 6, sys_id = JNull, save_dir = JStr ''.''\<rparr>"

definition fresh_world :: world where
  "fresh_world = example_world\<lparr>instant := 1\<rparr>"

definition late_world :: world where
  "late_world = example_world\<lparr>cpu_clock := (\<lambda>n. 30000 + real n)\<rparr>"

definition missing_dir_world :: world where
  "missing_dir_world = late_world\<lparr>open_fault := (\<lambda>p. Some NoSuchDirectory)\<rparr>"

definition read_only_world :: world where
  "read_only_world = late_world\<lparr>open_fault := (\<lambda>p. Some NotPermitted)\<rparr>"

definition idle_world :: world where
  "idle_world = example_world\<lparr>wall_clock := (\<lambda>n. 30000 * real n)\<rparr>"

section \<open>Properties\<close>

subsection \<open>The checkpoint\<close>

lemma open_write_write_file [simp]: "open_write p (write_file q c w) = open_write p w"
  by (simp add: open_write_def write_file_def)

lemma open_write_instant [simp]: "open_write p (w\<lparr>instant := n\<rparr>) = open_write p w"
  by (simp add: open_write_def)

lemma open_write_not_capacity: "open_write p w \<noteq> Some (CapacityExceeded m)"
  by (simp add: open_write_def split: option.splits open_failure.splits)

lemma names_differ:
  "path_join d (''CDF'' @ x @ ''.txt'') \<noteq> path_join d (''Scalars'' @ x @ ''.json'')"
  by (simp add: path_join_def)

text \<open>\<^verbatim>\<open>saveState\<close> with a \<^verbatim>\<open>save_dir\<close> that is a string: what the two opens decide.\<close>

lemma saveState_str:
  assumes "save_dir s = JStr d"
  shows "saveState s w =
     (let cf = path_join d (''CDF'' @ format_value w (sys_id s) @ ''.txt'');
          sf = path_join d (''Scalars'' @ format_value w (sys_id s) @ ''.json'')
      in case open_write cf w of
           Some e \<Rightarrow> (Some e, w)
         | None \<Rightarrow>
             (case open_write sf w of
                Some e \<Rightarrow> (Some e, write_file cf (QuadFile (getSaveCDF s)) w)
              | None \<Rightarrow>
                  (None, write_file sf (JsonFile (scalars_of s))
                           (write_file cf (QuadFile (getSaveCDF s)) w))))"
  using assms
  by (simp add: saveState_def cdf_file_of_def scalars_file_of_def os_path_join_def
        saveArrayQuad_def json_dump_def Let_def split: option.splits)

lemma saveState_not_str:
  assumes "\<forall>d. save_dir s \<noteq> JStr d"
  shows "saveState s w = (Some TypeError, w)"
  using assms
  by (cases "save_dir s") (simp_all add: saveState_def cdf_file_of_def os_path_join_def)

lemma format_value_instant [simp]: "format_value (w\<lparr>instant := n\<rparr>) v = format_value w v"
  by (cases v) (simp_all add: format_value_def)

lemma saveState_frame:
  "open_fault (snd (saveState s w)) = open_fault w"
  "alloc_limit (snd (saveState s w)) = alloc_limit w"
  "cpu_clock (snd (saveState s w)) = cpu_clock w"
  "wall_clock (snd (saveState s w)) = wall_clock w"
  "instant (snd (saveState s w)) = instant w"
  "float_sub (snd (saveState s w)) = float_sub w"
  "float_of_int (snd (saveState s w)) = float_of_int w"
  "float_repr (snd (saveState s w)) = float_repr w"
proof -
  have "\<exists>f. snd (saveState s w) = w\<lparr>files := f\<rparr>"
  proof (cases "\<exists>d. save_dir s = JStr d")
    case True
    then obtain d where d: "save_dir s = JStr d" ..
    show ?thesis
      by (auto simp: saveState_str [OF d] Let_def write_file_def split: option.splits
            intro: exI [of _ "files w"])
  next
    case False
    then have "saveState s w = (Some TypeError, w)"
      by (simp add: saveState_not_str)
    then show ?thesis
      by (auto intro: exI [of _ "files w"])
  qed
  then obtain f where f: "snd (saveState s w) = w\<lparr>files := f\<rparr>" ..
  show "open_fault (snd (saveState s w)) = open_fault w"
    "alloc_limit (snd (saveState s w)) = alloc_limit w"
    "cpu_clock (snd (saveState s w)) = cpu_clock w"
    "wall_clock (snd (saveState s w)) = wall_clock w"
    "instant (snd (saveState s w)) = instant w"
    "float_sub (snd (saveState s w)) = float_sub w"
    "float_of_int (snd (saveState s w)) = float_of_int w"
    "float_repr (snd (saveState s w)) = float_repr w"
    by (simp_all add: f)
qed

lemma saveState_instant:
  "fst (saveState s (w\<lparr>instant := n\<rparr>)) = fst (saveState s w)"
  "files (snd (saveState s (w\<lparr>instant := n\<rparr>))) = files (snd (saveState s w))"
proof -
  have "fst (saveState s (w\<lparr>instant := n\<rparr>)) = fst (saveState s w)
      \<and> files (snd (saveState s (w\<lparr>instant := n\<rparr>))) = files (snd (saveState s w))"
  proof (cases "\<exists>d. save_dir s = JStr d")
    case True
    then obtain d where d: "save_dir s = JStr d" ..
    show ?thesis
      by (simp add: saveState_str [OF d] Let_def write_file_def split: option.splits)
  next
    case False
    then show ?thesis
      by (simp add: saveState_not_str)
  qed
  then show "fst (saveState s (w\<lparr>instant := n\<rparr>)) = fst (saveState s w)"
    "files (snd (saveState s (w\<lparr>instant := n\<rparr>))) = files (snd (saveState s w))"
    by simp_all
qed

lemma saveState_not_capacity: "fst (saveState s w) \<noteq> Some (CapacityExceeded m)"
proof (cases "\<exists>d. save_dir s = JStr d")
  case True
  then obtain d where d: "save_dir s = JStr d" ..
  show ?thesis
    using open_write_not_capacity
    by (auto simp: saveState_str [OF d] Let_def split: option.splits)
next
  case False
  then show ?thesis
    by (simp add: saveState_not_str)
qed

lemma saveState_success:
  assumes "fst (saveState s w) = None"
  shows "\<exists>d. save_dir s = JStr d
       \<and> cdf_file_of s w = Inr (path_join d (''CDF'' @ format_value w (sys_id s) @ ''.txt''))
       \<and> scalars_file_of s w = Inr (path_join d (''Scalars'' @ format_value w (sys_id s) @ ''.json''))
       \<and> snd (saveState s w) =
           write_file (path_join d (''Scalars'' @ format_value w (sys_id s) @ ''.json''))
             (JsonFile (scalars_of s))
             (write_file (path_join d (''CDF'' @ format_value w (sys_id s) @ ''.txt''))
                (QuadFile (getSaveCDF s)) w)"
proof (cases "\<exists>d. save_dir s = JStr d")
  case True
  then obtain d where d: "save_dir s = JStr d" ..
  from assms show ?thesis
    by (simp add: saveState_str [OF d] d cdf_file_of_def scalars_file_of_def os_path_join_def
          Let_def split: option.splits)
next
  case False
  with assms show ?thesis
    by (simp add: saveState_not_str)
qed

subsection \<open>The throttle and the step\<close>

lemma throttled_save_not_due:
  assumes "\<not> save_due s w"
  shows "throttled_save s w = (None, s, w\<lparr>instant := Suc (instant w)\<rparr>)"
  using assms by (simp add: throttled_save_def process_time_def save_due_def)

lemma throttled_save_due_ok:
  assumes "save_due s w" and "fst (saveState s w) = None"
  shows "throttled_save s w =
     (None, s\<lparr>last_saved_time := cpu_clock w (Suc (instant w))\<rparr>,
      (snd (saveState s (w\<lparr>instant := Suc (instant w)\<rparr>)))\<lparr>instant := Suc (Suc (instant w))\<rparr>)"
proof -
  from assms(2) have "fst (saveState s (w\<lparr>instant := Suc (instant w)\<rparr>)) = None"
    by (simp add: saveState_instant)
  then obtain w2 where "saveState s (w\<lparr>instant := Suc (instant w)\<rparr>) = (None, w2)"
    by (cases "saveState s (w\<lparr>instant := Suc (instant w)\<rparr>)") auto
  moreover from this saveState_frame(3,5) [of s "w\<lparr>instant := Suc (instant w)\<rparr>"]
  have "cpu_clock w2 = cpu_clock w" "instant w2 = Suc (instant w)"
    by simp_all
  ultimately show ?thesis
    using assms(1) by (simp add: throttled_save_def process_time_def save_due_def)
qed

lemma throttled_save_due_fail:
  assumes "save_due s w" and "fst (saveState s w) = Some e"
  shows "throttled_save s w = (Some e, s, snd (saveState s (w\<lparr>instant := Suc (instant w)\<rparr>)))"
proof -
  from assms(2) have "fst (saveState s (w\<lparr>instant := Suc (instant w)\<rparr>)) = Some e"
    by (simp add: saveState_instant)
  then obtain w2 where "saveState s (w\<lparr>instant := Suc (instant w)\<rparr>) = (Some e, w2)"
    by (cases "saveState s (w\<lparr>instant := Suc (instant w)\<rparr>)") auto
  with assms(1) show ?thesis
    by (simp add: throttled_save_def process_time_def save_due_def)
qed

lemma throttled_save_kernel:
  "throttled_save s w = (r, s', w') \<Longrightarrow>
     time s' = time s \<and> tMax s' = tMax s \<and> CDF s' = CDF s \<and> rng s' = rng s
       \<and> beta s' = beta s \<and> sys_id s' = sys_id s \<and> save_dir s' = save_dir s
       \<and> save_interval s' = save_interval s"
  by (auto simp: throttled_save_def process_time_def split: if_splits prod.splits option.splits)

lemma throttled_save_error:
  "fst (throttled_save s w) = (if save_due s w then fst (saveState s w) else None)"
proof (cases "save_due s w")
  case False
  then show ?thesis
    by (simp add: throttled_save_not_due)
next
  case True
  then show ?thesis
    by (cases "fst (saveState s w)") (simp_all add: throttled_save_due_ok throttled_save_due_fail)
qed

lemma iterateTimeStep_cases:
  "iterateTimeStep upd s w =
     (case throttled_save s w of
        (Some e, s1, w1) \<Rightarrow> (Some e, s1, w1)
      | (None, s1, w1) \<Rightarrow>
          if time s \<ge> tMax s then (Some (CapacityExceeded (tMax s)), s1, w1)
          else (None, kernel_iterateTimeStep upd s1, w1))"
proof -
  obtain r s1 w1 where ts: "throttled_save s w = (r, s1, w1)"
    by (cases "throttled_save s w") auto
  from throttled_save_kernel [OF ts] ts show ?thesis
    by (simp add: iterateTimeStep_def split: option.splits)
qed

lemma iterateTimeStep_None:
  assumes "iterateTimeStep upd s w = (None, s', w')"
  shows "time s' = Suc (time s) \<and> tMax s' = tMax s \<and> time s < tMax s"
proof -
  obtain r s1 w1 where ts: "throttled_save s w = (r, s1, w1)"
    by (cases "throttled_save s w") auto
  from throttled_save_kernel [OF ts] assms ts show ?thesis
    by (auto simp: iterateTimeStep_cases kernel_iterateTimeStep_def
          split: prod.splits if_splits option.splits)
qed

lemma iterateTimeStep_below_capacity:
  assumes "time s < tMax s"
  shows "fst (iterateTimeStep upd s w) \<noteq> Some (CapacityExceeded m)"
proof -
  obtain r s1 w1 where ts: "throttled_save s w = (r, s1, w1)"
    by (cases "throttled_save s w") auto
  with throttled_save_error [of s w] have "r = (if save_due s w then fst (saveState s w) else None)"
    by simp
  with saveState_not_capacity [of s w m] have "r \<noteq> Some (CapacityExceeded m)"
    by (simp split: if_splits)
  with assms ts show ?thesis
    by (auto simp: iterateTimeStep_cases split: option.splits)
qed

text \<open>The definitions that running a step or a save on a concrete input unfolds.\<close>

lemmas step_defs =
  iterateTimeStep_def throttled_save_def process_time_def save_due_def saveState_def
  cdf_file_of_def scalars_file_of_def os_path_join_def path_join_def format_value_def
  str_int_def digit_char_def saveArrayQuad_def open_write_def json_dump_def write_file_def
  getSaveCDF_def scalars_of_def kernel_iterateTimeStep_def Let_def

lemmas example_defs =
  example_update_def example_engine_def example_world_def fresh_engine_def fresh_world_def
  late_world_def missing_dir_world_def read_only_world_def idle_world_def

subsection \<open>The capacity check\<close>




text \<open>Claim C10 as stated (with the interval elapsed and \<open>time = tMax\<close> the call writes
  both checkpoint files and then raises the at-capacity error) is false: when
  \<^verbatim>\<open>save_dir\<close> is not writable, the call raises \<^verbatim>\<open>PermissionError\<close>, writes neither
  file and raises no at-capacity error.\<close>

theorem iterateTimeStep_save_fails_counterexample:
  "time (example_engine\<lparr>time := 2\<rparr>) = tMax (example_engine\<lparr>time := 2\<rparr>)
   \<and> save_due (example_engine\<lparr>time := 2\<rparr>) read_only_world
   \<and> fst (iterateTimeStep example_update (example_engine\<lparr>time := 2\<rparr>) read_only_world)
       = Some PermissionError
   \<and> files (snd (snd (iterateTimeStep example_update (example_engine\<lparr>time := 2\<rparr>) read_only_world)))
       ''./CDF7.txt'' = None
   \<and> files (snd (snd (iterateTimeStep example_update (example_engine\<lparr>time := 2\<rparr>) read_only_world)))
       ''./Scalars7.json'' = None"
  by (simp add: step_defs example_defs)

text \<open>Claim C10, amended. The throttled save comes before the capacity check: when the
  save interval has elapsed and \<open>time = tMax\<close>, \<^verbatim>\<open>iterateTimeStep()\<close> runs \<^verbatim>\<open>saveState()\<close>
  first. If \<^verbatim>\<open>saveState()\<close> succeeds, both checkpoint files are written,
  \<^verbatim>\<open>_last_saved_time\<close> is reset, and then the at-capacity error is raised. If
  \<^verbatim>\<open>saveState()\<close> raises, that exception is raised, \<^verbatim>\<open>_last_saved_time\<close> is not reset
  and the capacity check is not reached. In both cases the files are as \<^verbatim>\<open>saveState()\<close>
  left them, and \<open>time\<close> and the array are unchanged.\<close>

theorem iterateTimeStep_save_before_capacity:
  assumes "time s = tMax s" and "save_due s w"
  shows "(fst (saveState s w) = None \<longrightarrow>
            fst (iterateTimeStep upd s w) = Some (CapacityExceeded (tMax s))
          \<and> (\<exists>cdf_file scalars_file.
                cdf_file_of s w = Inr cdf_file \<and> scalars_file_of s w = Inr scalars_file
              \<and> files (snd (snd (iterateTimeStep upd s w))) cdf_file = Some (QuadFile (getSaveCDF s))
              \<and> files (snd (snd (iterateTimeStep upd s w))) scalars_file
                  = Some (JsonFile (scalars_of s)))
          \<and> last_saved_time (fst (snd (iterateTimeStep upd s w))) = cpu_clock w (Suc (instant w)))
       \<and> (fst (saveState s w) \<noteq> None \<longrightarrow>
            fst (iterateTimeStep upd s w) = fst (saveState s w)
          \<and> last_saved_time (fst (snd (iterateTimeStep upd s w))) = last_saved_time s)
       \<and> files (snd (snd (iterateTimeStep upd s w))) = files (snd (saveState s w))
       \<and> time (fst (snd (iterateTimeStep upd s w))) = tMax s
       \<and> CDF (fst (snd (iterateTimeStep upd s w))) = CDF s"
proof (cases "fst (saveState s w)")
  case None
  from saveState_success [OF None] obtain d where d: "save_dir s = JStr d"
    and cf: "cdf_file_of s w = Inr (path_join d (''CDF'' @ format_value w (sys_id s) @ ''.txt''))"
    and sf: "scalars_file_of s w = Inr (path_join d (''Scalars'' @ format_value w (sys_id s) @ ''.json''))"
    and w': "snd (saveState s w) =
           write_file (path_join d (''Scalars'' @ format_value w (sys_id s) @ ''.json''))
             (JsonFile (scalars_of s))
             (write_file (path_join d (''CDF'' @ format_value w (sys_id s) @ ''.txt''))
                (QuadFile (getSaveCDF s)) w)"
    by blast
  have fs: "files (snd (snd (iterateTimeStep upd s w))) = files (snd (saveState s w))"
    using assms None
    by (simp add: iterateTimeStep_cases throttled_save_due_ok saveState_instant)
  from assms None fs cf sf names_differ [of d "format_value w (sys_id s)"] show ?thesis
    by (simp add: iterateTimeStep_cases throttled_save_due_ok w' write_file_def)
next
  case (Some e)
  with assms show ?thesis
    by (simp add: iterateTimeStep_cases throttled_save_due_fail saveState_instant)
qed

theorem iterateTimeStep_save_before_capacity_witness:
  "fst (iterateTimeStep example_update (example_engine\<lparr>time := 2\<rparr>) late_world) = Some (CapacityExceeded 2)
   \<and> files (snd (snd (iterateTimeStep example_update (example_engine\<lparr>time := 2\<rparr>) late_world))) ''./CDF7.txt''
       = Some (QuadFile [1, 1 / 2, 0])
   \<and> files (snd (snd (iterateTimeStep example_update (example_engine\<lparr>time := 2\<rparr>) late_world))) ''./Scalars7.json''
       = Some (JsonFile [(''time'', JInt 2), (''beta'', JFloat 1), (''tMax'', JInt 2),
                         (''id'', JInt 7), (''save_dir'', JStr ''.'')])
   \<and> files late_world ''./CDF7.txt'' = None
   \<and> last_saved_time (fst (snd (iterateTimeStep example_update (example_engine\<lparr>time := 2\<rparr>) late_world)))
       = 30001"
proof -
  have pre: "time (example_engine\<lparr>time := 2\<rparr>) = tMax (example_engine\<lparr>time := 2\<rparr>)"
    "save_due (example_engine\<lparr>time := 2\<rparr>) late_world"
    by (simp_all add: step_defs example_defs)
  have vals: "fst (saveState (example_engine\<lparr>time := 2\<rparr>) late_world) = None"
    "cdf_file_of (example_engine\<lparr>time := 2\<rparr>) late_world = Inr ''./CDF7.txt''"
    "scalars_file_of (example_engine\<lparr>time := 2\<rparr>) late_world = Inr ''./Scalars7.json''"
    "getSaveCDF (example_engine\<lparr>time := 2\<rparr>) = [1, 1 / 2, 0]"
    "scalars_of (example_engine\<lparr>time := 2\<rparr>) =
       [(''time'', JInt 2), (''beta'', JFloat 1), (''tMax'', JInt 2),
        (''id'', JInt 7), (''save_dir'', JStr ''.'')]"
    "tMax (example_engine\<lparr>time := 2\<rparr>) = 2"
    "cpu_clock late_world (Suc (instant late_world)) = 30001"
    "files late_world ''./CDF7.txt'' = None"
    by (simp_all add: step_defs example_defs)
  note c = iterateTimeStep_save_before_capacity [OF pre, of example_update]
  from c vals show ?thesis
    by auto
qed

subsection \<open>The throttle policy\<close>

text \<open>Claim C6 as stated (the save is made when the elapsed wall-clock time exceeds the
  interval) is false. An engine is constructed in an idle process; by the next call
  30000 seconds of wall-clock time have elapsed, more than the interval of 21600
  seconds, but one second of CPU time. \<^verbatim>\<open>iterateTimeStep()\<close> then steps without saving,
  although a save would have written \<^verbatim>\<open>./CDFNone.txt\<close>.\<close>

theorem iterateTimeStep_wall_clock_counterexample:
  "DiffusionTimeCDF_init (0::nat) 1 2 idle_world = (Inr fresh_engine, idle_world\<lparr>instant := 1\<rparr>)
   \<and> wall_time_now (idle_world\<lparr>instant := 1\<rparr>) - wall_time_now idle_world = 30000
   \<and> save_interval fresh_engine = 21600
   \<and> fst (iterateTimeStep example_update fresh_engine (idle_world\<lparr>instant := 1\<rparr>)) = None
   \<and> files (snd (snd (iterateTimeStep example_update fresh_engine (idle_world\<lparr>instant := 1\<rparr>))))
       ''./CDFNone.txt'' = None
   \<and> last_saved_time (fst (snd (iterateTimeStep example_update fresh_engine (idle_world\<lparr>instant := 1\<rparr>))))
       = last_saved_time fresh_engine
   \<and> files (snd (saveState fresh_engine (idle_world\<lparr>instant := 1\<rparr>))) ''./CDFNone.txt''
       = Some (QuadFile [0])"
  by (simp add: DiffusionTimeCDF_init_def kernel_construct_def wall_time_now_def
        step_defs example_defs numeral_eq_Suc)

text \<open>Claim C6, amended. \<^verbatim>\<open>iterateTimeStep()\<close> first compares the process CPU time
  (\<^verbatim>\<open>time.process_time()\<close>) elapsed since \<^verbatim>\<open>_last_saved_time\<close>, as the float subtraction
  gives it, with \<^verbatim>\<open>_save_interval\<close>.
  \<^item> If it exceeds the interval and \<^verbatim>\<open>saveState()\<close> succeeds, the files are those
    \<^verbatim>\<open>saveState()\<close> writes and \<^verbatim>\<open>_last_saved_time\<close> becomes the next reading of the CPU
    clock.
  \<^item> If it exceeds the interval and \<^verbatim>\<open>saveState()\<close> raises, that exception is raised:
    \<^verbatim>\<open>_last_saved_time\<close> is not reset and no step is made.
  \<^item> Otherwise no file and no attribute changes.
  Unless the save raised, the call goes on to the capacity check and, below capacity,
  to the step.\<close>

theorem iterateTimeStep_throttle_process_time:
  "(save_due s w \<and> fst (saveState s w) = None \<longrightarrow>
       files (snd (snd (iterateTimeStep upd s w))) = files (snd (saveState s w))
     \<and> last_saved_time (fst (snd (iterateTimeStep upd s w))) = cpu_clock w (Suc (instant w))
     \<and> instant (snd (snd (iterateTimeStep upd s w))) = instant w + 2)
   \<and> (save_due s w \<and> fst (saveState s w) \<noteq> None \<longrightarrow>
       fst (iterateTimeStep upd s w) = fst (saveState s w)
     \<and> files (snd (snd (iterateTimeStep upd s w))) = files (snd (saveState s w))
     \<and> last_saved_time (fst (snd (iterateTimeStep upd s w))) = last_saved_time s
     \<and> time (fst (snd (iterateTimeStep upd s w))) = time s
     \<and> CDF (fst (snd (iterateTimeStep upd s w))) = CDF s
     \<and> rng (fst (snd (iterateTimeStep upd s w))) = rng s)
   \<and> (\<not> save_due s w \<longrightarrow>
       files (snd (snd (iterateTimeStep upd s w))) = files w
     \<and> last_saved_time (fst (snd (iterateTimeStep upd s w))) = last_saved_time s
     \<and> instant (snd (snd (iterateTimeStep upd s w))) = instant w + 1)
   \<and> (\<not> (save_due s w \<and> fst (saveState s w) \<noteq> None) \<longrightarrow>
       (time s < tMax s \<longrightarrow>
          fst (iterateTimeStep upd s w) = None
        \<and> time (fst (snd (iterateTimeStep upd s w))) = Suc (time s)
        \<and> (CDF (fst (snd (iterateTimeStep upd s w))), rng (fst (snd (iterateTimeStep upd s w))))
            = upd (rng s) (beta s) (time s) (CDF s))
     \<and> (time s \<ge> tMax s \<longrightarrow>
          fst (iterateTimeStep upd s w) = Some (CapacityExceeded (tMax s))
        \<and> time (fst (snd (iterateTimeStep upd s w))) = time s
        \<and> CDF (fst (snd (iterateTimeStep upd s w))) = CDF s))"
proof (cases "save_due s w")
  case False
  then show ?thesis
    by (auto simp: iterateTimeStep_cases throttled_save_not_due kernel_iterateTimeStep_def
          split: prod.splits)
next
  case True
  show ?thesis
  proof (cases "fst (saveState s w)")
    case None
    with True show ?thesis
      by (auto simp: iterateTimeStep_cases throttled_save_due_ok saveState_instant
            kernel_iterateTimeStep_def split: prod.splits)
  next
    case (Some e)
    with True show ?thesis
      by (simp add: iterateTimeStep_cases throttled_save_due_fail saveState_instant)
  qed
qed

theorem iterateTimeStep_throttle_process_time_witness:
  "files (snd (snd (iterateTimeStep example_update example_engine late_world)))
     = files (snd (saveState example_engine late_world))
   \<and> last_saved_time (fst (snd (iterateTimeStep example_update example_engine late_world))) = 30001
   \<and> fst (iterateTimeStep example_update example_engine late_world) = None
   \<and> fst (iterateTimeStep example_update example_engine missing_dir_world) = Some FileNotFoundError
   \<and> last_saved_time (fst (snd (iterateTimeStep example_update example_engine missing_dir_world))) = 0
   \<and> time (fst (snd (iterateTimeStep example_update example_engine missing_dir_world))) = 1
   \<and> files (snd (snd (iterateTimeStep example_update example_engine example_world))) = files example_world
   \<and> last_saved_time (fst (snd (iterateTimeStep example_update example_engine example_world))) = 0
   \<and> fst (iterateTimeStep example_update example_engine example_world) = None
   \<and> time (fst (snd (iterateTimeStep example_update example_engine example_world))) = 2"
proof -
  have vals: "save_due example_engine late_world"
    "fst (saveState example_engine late_world) = None"
    "save_due example_engine missing_dir_world"
    "fst (saveState example_engine missing_dir_world) = Some FileNotFoundError"
    "\<not> save_due example_engine example_world"
    "time example_engine = 1" "tMax example_engine = 2" "last_saved_time example_engine = 0"
    "cpu_clock late_world (Suc (instant late_world)) = 30001"
    by (simp_all add: step_defs example_defs)
  note a = iterateTimeStep_throttle_process_time [of example_engine late_world example_update]
  note b = iterateTimeStep_throttle_process_time [of example_engine missing_dir_world example_update]
  note c = iterateTimeStep_throttle_process_time [of example_engine example_world example_update]
  from a b c vals show ?thesis
    by simp
qed

subsection \<open>Repeated steps\<close>

text \<open>Claim C9. For every target \<open>t\<close> not above the current time, \<^verbatim>\<open>evolveToTime(t)\<close>
  makes no step, raises nothing and leaves the state and the environment unchanged.\<close>

theorem evolveToTime_backward_noop:
  assumes "t \<le> int (time s)"
  shows "evolveToTime upd t s w = (None, s, w)"
  using assms by (simp add: evolveToTime.simps)

theorem evolveToTime_backward_noop_witness:
  "evolveToTime example_update 1 example_engine example_world = (None, example_engine, example_world)
   \<and> evolveToTime example_update (- 3) example_engine example_world = (None, example_engine, example_world)"
  using evolveToTime_backward_noop [of 1 example_engine example_update example_world]
    evolveToTime_backward_noop [of "- 3" example_engine example_update example_world]
  by (simp add: example_engine_def)

lemma sequential_calls_Suc:
  "sequential_calls upd (Suc n) s w =
     (case iterateTimeStep upd s w of
        (Some e, s', w') \<Rightarrow> (Some e, s', w')
      | (None, s', w') \<Rightarrow> sequential_calls upd n s' w')"
proof (induction n arbitrary: s w)
  case 0
  show ?case
    by (simp split: prod.splits option.splits)
next
  case (Suc n)
  obtain r s' w' where it: "iterateTimeStep upd s w = (r, s', w')"
    by (cases "iterateTimeStep upd s w") auto
  have unfold: "sequential_calls upd (Suc (Suc n)) s w =
          (case sequential_calls upd (Suc n) s w of
             (Some e, s1, w1) \<Rightarrow> (Some e, s1, w1)
           | (None, s1, w1) \<Rightarrow> iterateTimeStep upd s1 w1)"
    by simp
  show ?case
  proof (cases r)
    case None
    with it have "sequential_calls upd (Suc n) s w = sequential_calls upd n s' w'"
      by (simp only: Suc.IH [of s w]) simp
    with it None show ?thesis
      by (simp only: unfold) simp
  next
    case (Some e)
    with it have "sequential_calls upd (Suc n) s w = (Some e, s', w')"
      by (simp only: Suc.IH [of s w]) simp
    with it Some show ?thesis
      by (simp only: unfold) simp
  qed
qed

lemma evolveTimesteps_loop_sequential:
  "evolveTimesteps_loop upd n s w = sequential_calls upd n s w"
proof (induction n arbitrary: s w)
  case 0
  show ?case by simp
next
  case (Suc n)
  obtain r s' w' where it: "iterateTimeStep upd s w = (r, s', w')"
    by (cases "iterateTimeStep upd s w") auto
  show ?case
    by (cases r) (simp_all only: sequential_calls_Suc evolveTimesteps_loop.simps it Suc.IH
                    prod.case option.case)
qed

lemma evolveToTime_loop:
  "evolveToTime upd t s w = evolveTimesteps_loop upd (nat (t - int (time s))) s w"
proof (induction upd t s w rule: evolveToTime.induct)
  case (1 upd t s w)
  show ?case
  proof (cases "int (time s) < t")
    case False
    then show ?thesis
      by (simp add: evolveToTime.simps)
  next
    case True
    then obtain m where m: "nat (t - int (time s)) = Suc m"
      by (cases "nat (t - int (time s))") auto
    obtain r s' w' where it: "iterateTimeStep upd s w = (r, s', w')"
      by (cases "iterateTimeStep upd s w") auto
    show ?thesis
    proof (cases r)
      case (Some e)
      with True it m show ?thesis
        by (simp add: evolveToTime.simps)
    next
      case None
      with it iterateTimeStep_None [of upd s w s' w'] have "time s' = Suc (time s)"
        by simp
      with m have m': "nat (t - int (time s')) = m"
        by simp
      from "1.IH" [OF True it [symmetric] None refl] True it None m m'
      show ?thesis
        by (simp add: evolveToTime.simps [of upd t s w])
    qed
  qed
qed

lemma evolveTimesteps_loop_time:
  "fst (evolveTimesteps_loop upd n s w) = None \<Longrightarrow>
     time (fst (snd (evolveTimesteps_loop upd n s w))) = time s + n"
proof (induction n arbitrary: s w)
  case 0
  show ?case by simp
next
  case (Suc n)
  obtain r s' w' where it: "iterateTimeStep upd s w = (r, s', w')"
    by (cases "iterateTimeStep upd s w") auto
  show ?case
  proof (cases r)
    case (Some e)
    with it Suc.prems show ?thesis by simp
  next
    case None
    with it iterateTimeStep_None [of upd s w s' w'] have t': "time s' = Suc (time s)"
      by simp
    from it None Suc.prems have "fst (evolveTimesteps_loop upd n s' w') = None"
      by simp
    from Suc.IH [OF this] it None t' show ?thesis
      by simp
  qed
qed

lemma evolveTimesteps_loop_no_capacity:
  "time s + n \<le> tMax s \<Longrightarrow> fst (evolveTimesteps_loop upd n s w) \<noteq> Some (CapacityExceeded m)"
proof (induction n arbitrary: s w)
  case 0
  show ?case by simp
next
  case (Suc n)
  then have lt: "time s < tMax s"
    by simp
  obtain r s' w' where it: "iterateTimeStep upd s w = (r, s', w')"
    by (cases "iterateTimeStep upd s w") auto
  show ?case
  proof (cases r)
    case (Some e)
    with it iterateTimeStep_below_capacity [OF lt, of upd w m] show ?thesis
      by simp
  next
    case None
    with it iterateTimeStep_None [of upd s w s' w']
    have "time s' = Suc (time s)" "tMax s' = tMax s"
      by simp_all
    with Suc.prems have "time s' + n \<le> tMax s'"
      by simp
    from Suc.IH [OF this, of w'] it None show ?thesis
      by simp
  qed
qed

lemma init_fresh:
  assumes "DiffusionTimeCDF_init g0 b tm w0 = (Inr s, w)"
  shows "time s = 0 \<and> tMax s = nat tm \<and> 0 < tm \<and> sys_id s = JNull \<and> save_dir s = JStr ''.''
       \<and> CDF s = replicate (nat tm + 1) 0 \<and> rng s = g0 \<and> beta s = b
       \<and> save_interval s = 21600 \<and> last_saved_time s = cpu_clock w0 (instant w0)"
  using assms
  by (auto simp: DiffusionTimeCDF_init_def kernel_construct_def process_time_def split: if_splits)

lemma fresh_init: "DiffusionTimeCDF_init (0::nat) 1 2 example_world = (Inr fresh_engine, fresh_world)"
  by (simp add: DiffusionTimeCDF_init_def kernel_construct_def process_time_def fresh_engine_def
        fresh_world_def example_world_def numeral_eq_Suc)

text \<open>Claim C2. On a freshly constructed engine (\<open>time = 0\<close>, whatever the seed of
  its random source), for \<open>0 < t \<le> tMax\<close>, \<^verbatim>\<open>evolveToTime(t)\<close> leaves the same outcome,
  state and environment as \<open>t\<close> calls of \<^verbatim>\<open>iterateTimeStep()\<close> in sequence; likewise
  \<^verbatim>\<open>evolveTimesteps(n)\<close> equals \<open>n\<close> calls in sequence. Moreover \<^verbatim>\<open>evolveToTime(t)\<close> never
  raises the at-capacity error there, and when it raises nothing it ends at \<open>time = t\<close>
  (a throttled save that fails is the only way it can raise).\<close>

theorem evolveToTime_sequential_calls:
  assumes "time s = 0" and "0 < t" and "t \<le> int (tMax s)"
  shows "evolveToTime upd t s w = sequential_calls upd (nat t) s w
       \<and> evolveTimesteps upd n s w = sequential_calls upd (nat n) s w
       \<and> (\<forall>m. fst (evolveToTime upd t s w) \<noteq> Some (CapacityExceeded m))
       \<and> (fst (evolveToTime upd t s w) = None \<longrightarrow>
            time (fst (snd (evolveToTime upd t s w))) = nat t)"
proof -
  note t0 = assms(1)
  then have e: "evolveToTime upd t s w = evolveTimesteps_loop upd (nat t) s w"
    by (simp add: evolveToTime_loop)
  from t0 assms(2,3) have "time s + nat t \<le> tMax s"
    by simp
  from evolveTimesteps_loop_no_capacity [OF this, of upd w]
    evolveTimesteps_loop_time [of upd "nat t" s w] e t0 show ?thesis
    by (simp add: evolveTimesteps_loop_sequential evolveTimesteps_def)
qed

theorem evolveToTime_sequential_calls_witness:
  "evolveToTime example_update 2 fresh_engine fresh_world
     = sequential_calls example_update 2 fresh_engine fresh_world
   \<and> evolveTimesteps example_update 2 fresh_engine fresh_world
     = sequential_calls example_update 2 fresh_engine fresh_world
   \<and> fst (evolveToTime example_update 2 fresh_engine fresh_world) = None
   \<and> time (fst (snd (evolveToTime example_update 2 fresh_engine fresh_world))) = 2"
proof -
  from init_fresh [OF fresh_init] have pre: "time fresh_engine = 0" "(0::int) < 2"
    "2 \<le> int (tMax fresh_engine)"
    by simp_all
  note c = evolveToTime_sequential_calls [OF pre, of example_update fresh_world 2, unfolded nat_numeral]
  have ok: "fst (evolveToTime example_update 2 fresh_engine fresh_world) = None"
    by (simp add: evolveToTime.simps step_defs example_defs)
  from c ok show ?thesis
    by blast
qed

subsection \<open>Saving and loading\<close>

text \<open>Claim C5 as stated (with \<^verbatim>\<open>id\<close> unset, \<^verbatim>\<open>saveState()\<close> fails and writes nothing)
  is false: on the freshly constructed engine, whose \<^verbatim>\<open>id\<close> is \<^verbatim>\<open>None\<close>, nothing is
  raised and the files \<^verbatim>\<open>./CDFNone.txt\<close> and \<^verbatim>\<open>./ScalarsNone.json\<close>, absent before, are
  written.\<close>

theorem saveState_unset_id_counterexample:
  "sys_id fresh_engine = JNull
   \<and> fst (saveState fresh_engine example_world) = None
   \<and> files example_world ''./CDFNone.txt'' = None
   \<and> files (snd (saveState fresh_engine example_world)) ''./CDFNone.txt''
       = Some (QuadFile [0])
   \<and> files (snd (saveState fresh_engine example_world)) ''./ScalarsNone.json''
       = Some (JsonFile [(''time'', JInt 0), (''beta'', JFloat 1), (''tMax'', JInt 2),
                         (''id'', JNull), (''save_dir'', JStr ''.'')])"
  by (simp add: step_defs example_defs)

text \<open>Claim C5, amended. For every engine state with \<^verbatim>\<open>id\<close> unset (and \<^verbatim>\<open>save_dir\<close> a
  string), \<^verbatim>\<open>saveState()\<close> makes no check of the id: it raises exactly what opening
  \<^verbatim>\<open>CDFNone.txt\<close> and then \<^verbatim>\<open>ScalarsNone.json\<close> in \<^verbatim>\<open>save_dir\<close> for writing raises, and
  when both open it raises nothing and has written the valid prefix of the array to
  the first and the scalars, with \<^verbatim>\<open>id\<close> null, to the second.\<close>

theorem saveState_unset_id_writes:
  assumes "sys_id s = JNull" and "save_dir s = JStr d"
  shows "fst (saveState s w) =
           (case open_write (path_join d ''CDFNone.txt'') w of
              Some e \<Rightarrow> Some e
            | None \<Rightarrow> open_write (path_join d ''ScalarsNone.json'') w)
       \<and> (fst (saveState s w) = None \<longrightarrow>
            files (snd (saveState s w)) =
              (files w)(path_join d ''CDFNone.txt'' \<mapsto> QuadFile (getSaveCDF s),
                        path_join d ''ScalarsNone.json'' \<mapsto>
                          JsonFile [(''time'', JInt (int (time s))), (''beta'', JFloat (beta s)),
                                    (''tMax'', JInt (int (tMax s))), (''id'', JNull),
                                    (''save_dir'', JStr d)])
          \<and> cdf_file_of s w = Inr (path_join d ''CDFNone.txt'')
          \<and> scalars_file_of s w = Inr (path_join d ''ScalarsNone.json''))"
  using assms
  by (simp add: saveState_str [OF assms(2)] Let_def format_value_def scalars_of_def
        write_file_def cdf_file_of_def scalars_file_of_def os_path_join_def
        split: option.splits)

theorem saveState_unset_id_witness:
  "fst (saveState fresh_engine example_world) = None
   \<and> files (snd (saveState fresh_engine example_world)) =
       (files example_world)(''./CDFNone.txt'' \<mapsto> QuadFile [0],
          ''./ScalarsNone.json'' \<mapsto>
            JsonFile [(''time'', JInt 0), (''beta'', JFloat 1), (''tMax'', JInt 2),
                      (''id'', JNull), (''save_dir'', JStr ''.'')])
   \<and> fst (saveState fresh_engine missing_dir_world) = Some FileNotFoundError"
proof -
  have pre: "sys_id fresh_engine = JNull" "save_dir fresh_engine = JStr ''.''"
    by (simp_all add: fresh_engine_def)
  have vals: "open_write (path_join ''.'' ''CDFNone.txt'') example_world = None"
    "open_write (path_join ''.'' ''ScalarsNone.json'') example_world = None"
    "open_write (path_join ''.'' ''CDFNone.txt'') missing_dir_world = Some FileNotFoundError"
    "path_join ''.'' ''CDFNone.txt'' = ''./CDFNone.txt''"
    "path_join ''.'' ''ScalarsNone.json'' = ''./ScalarsNone.json''"
    "getSaveCDF fresh_engine = [0]" "time fresh_engine = 0" "beta fresh_engine = 1"
    "tMax fresh_engine = 2"
    by (simp_all add: step_defs example_defs)
  note a = saveState_unset_id_writes [OF pre, of example_world]
  note b = saveState_unset_id_writes [OF pre, of missing_dir_world]
  from a b vals show ?thesis
    by simp
qed

text \<open>What \<^verbatim>\<open>fromFiles\<close> reads back from the two files of a successful save.\<close>

lemma saved_files:
  assumes "fst (saveState s w) = None"
  shows "\<exists>cf sf. cdf_file_of s w = Inr cf \<and> scalars_file_of s w = Inr sf
       \<and> json_load sf (snd (saveState s w)) = Inr (scalars_of s)
       \<and> loadArrayQuad cf (snd (saveState s w)) = Inr (getSaveCDF s)"
proof -
  from saveState_success [OF assms] obtain d where
    cf: "cdf_file_of s w = Inr (path_join d (''CDF'' @ format_value w (sys_id s) @ ''.txt''))"
    and sf: "scalars_file_of s w = Inr (path_join d (''Scalars'' @ format_value w (sys_id s) @ ''.json''))"
    and w': "snd (saveState s w) =
           write_file (path_join d (''Scalars'' @ format_value w (sys_id s) @ ''.json''))
             (JsonFile (scalars_of s))
             (write_file (path_join d (''CDF'' @ format_value w (sys_id s) @ ''.txt''))
                (QuadFile (getSaveCDF s)) w)"
    by blast
  from names_differ [of d "format_value w (sys_id s)"] cf sf show ?thesis
    by (simp add: w' json_load_def loadArrayQuad_def write_file_def)
qed

lemma scalars_lookup:
  "json_get (scalars_of s) ''tMax'' = Inr (JInt (int (tMax s)))"
  "json_get (scalars_of s) ''time'' = Inr (JInt (int (time s)))"
  "json_get (scalars_of s) ''beta'' = Inr (JFloat (beta s))"
  "json_get (scalars_of s) ''id'' = Inr (sys_id s)"
  "json_get (scalars_of s) ''save_dir'' = Inr (save_dir s)"
  by (simp_all add: json_get_def scalars_of_def)

lemma assign_saved_prefix:
  assumes "time s \<le> tMax s" and "length (CDF s) = tMax s + 1"
  shows "assign_prefix (replicate (tMax s + 1) 0) (int (time s) + 1) (getSaveCDF s) =
           Inr (take (Suc (time s)) (CDF s) @ replicate (tMax s - time s) 0)"
proof -
  from assms have len: "length (getSaveCDF s) = Suc (time s)"
    by (simp add: getSaveCDF_def)
  have k: "\<not> int (time s) + 1 < 0"
    by simp
  from assms(1) have "min (int (time s) + 1) (int (length (replicate (tMax s + 1) (0::real)))) = int (Suc (time s))"
    by simp
  then have stop: "nat (min (int (time s) + 1) (int (length (replicate (tMax s + 1) (0::real))))) = Suc (time s)"
    by (simp only: nat_int)
  from assms(1) have d: "drop (Suc (time s)) (replicate (tMax s + 1) (0::real)) = replicate (tMax s - time s) 0"
    by simp
  show ?thesis
    unfolding assign_prefix_def Let_def
    by (simp only: k if_False stop len if_True d) (simp add: getSaveCDF_def)
qed

lemma fromFiles_loaded:
  assumes load: "json_load sf w2 = Inr (scalars_of s)" "loadArrayQuad cf w2 = Inr (getSaveCDF s)"
    and inv: "time s \<le> tMax s" "length (CDF s) = tMax s + 1" "0 < tMax s" "0 < beta s"
    and alloc: "allocatable w2 (length (CDF s))"
  shows "fromFiles g0 cf sf w2 =
           (Inr \<lparr>beta = beta s, tMax = tMax s, time = time s,
                 CDF = take (Suc (time s)) (CDF s) @ replicate (tMax s - time s) 0,
                 rng = g0, last_saved_time = cpu_clock w2 (instant w2),
                 save_interval = 3600 * 6, sys_id = sys_id s, save_dir = save_dir s\<rparr>,
            w2\<lparr>instant := Suc (instant w2)\<rparr>)"
proof -
  from alloc inv(2) have a: "allocatable w2 (Suc (tMax s))" and small: "int (tMax s) + 1 < 2 ^ 63"
    by (simp_all add: allocatable_def)
  from small inv(1) have t64: "\<not> int (time s) \<ge> 2 ^ 64"
    by simp
  have z: "np_zeros w2 (int (tMax s) + 1) = Inr (replicate (tMax s + 1) 0)"
    using a by (simp add: np_zeros_def nat_add_distrib)
  show ?thesis
    using inv(3,4) t64
    by (simp add: fromFiles_def load scalars_lookup bindE_def as_int_def as_float_def z
          assign_saved_prefix [OF inv(1,2), simplified]
          DiffusionTimeCDF_init_def kernel_construct_def process_time_def)
qed

text \<open>Claim C3. For every engine state with \<^verbatim>\<open>id\<close> set on which \<^verbatim>\<open>saveState()\<close> has
  written its two files (and within the data model: \<open>time \<le> tMax\<close>, an array of
  \<open>tMax + 1\<close> entries that the environment can allocate, \<open>tMax\<close> and \<open>beta\<close> positive),
  \<^verbatim>\<open>fromFiles\<close> on the two files gives a state equal to the original in \<open>time\<close>, \<open>beta\<close>,
  \<open>tMax\<close>, \<open>id\<close>, \<open>save_dir\<close> and every array entry of index \<open>0..time\<close>; the entries past
  \<open>time\<close> are zero.\<close>

theorem saveState_fromFiles_round_trip:
  assumes "sys_id s \<noteq> JNull" and "fst (saveState s w) = None"
    and "time s \<le> tMax s" and "length (CDF s) = tMax s + 1"
    and "0 < tMax s" and "0 < beta s" and "allocatable w (length (CDF s))"
  shows "\<exists>cdf_file scalars_file d w'.
         cdf_file_of s w = Inr cdf_file \<and> scalars_file_of s w = Inr scalars_file
       \<and> fromFiles g0 cdf_file scalars_file (snd (saveState s w)) = (Inr d, w')
       \<and> time d = time s \<and> beta d = beta s \<and> tMax d = tMax s
       \<and> sys_id d = sys_id s \<and> save_dir d = save_dir s
       \<and> length (CDF d) = tMax s + 1
       \<and> (\<forall>n\<le>time s. CDF d ! n = CDF s ! n)
       \<and> (\<forall>n. time s < n \<and> n \<le> tMax s \<longrightarrow> CDF d ! n = 0)"
proof -
  let ?c = "take (Suc (time s)) (CDF s) @ replicate (tMax s - time s) 0"
  from assms(3,4) have len: "length (take (Suc (time s)) (CDF s)) = Suc (time s)"
    by simp
  from assms(3,4) have l: "length ?c = tMax s + 1"
    by simp
  have low: "\<forall>n\<le>time s. ?c ! n = CDF s ! n"
    using len by (simp add: nth_append)
  have high: "\<forall>n. time s < n \<and> n \<le> tMax s \<longrightarrow> ?c ! n = 0"
    using len by (auto simp: nth_append)
  from saved_files [OF assms(2)] obtain cf sf where
    cf: "cdf_file_of s w = Inr cf" and sf: "scalars_file_of s w = Inr sf"
    and load: "json_load sf (snd (saveState s w)) = Inr (scalars_of s)"
      "loadArrayQuad cf (snd (saveState s w)) = Inr (getSaveCDF s)"
    by blast
  from assms(7) have "allocatable (snd (saveState s w)) (length (CDF s))"
    by (simp add: allocatable_def saveState_frame)
  from fromFiles_loaded [OF load assms(3-6) this, of g0] cf sf l low high show ?thesis
    by simp
qed

theorem saveState_fromFiles_round_trip_witness:
  "fst (saveState example_engine example_world) = None
   \<and> (\<exists>d w'. fromFiles (5::nat) ''./CDF7.txt'' ''./Scalars7.json''
             (snd (saveState example_engine example_world)) = (Inr d, w')
       \<and> time d = 1 \<and> beta d = 1 \<and> tMax d = 2 \<and> sys_id d = JInt 7 \<and> save_dir d = JStr ''.''
       \<and> length (CDF d) = 3 \<and> CDF d ! 0 = 1 \<and> CDF d ! 1 = 1 / 2 \<and> CDF d ! 2 = 0)"
proof -
  have names: "cdf_file_of example_engine example_world = Inr ''./CDF7.txt''"
    "scalars_file_of example_engine example_world = Inr ''./Scalars7.json''"
    by (simp_all add: step_defs example_defs)
  have pre: "sys_id example_engine \<noteq> JNull" "fst (saveState example_engine example_world) = None"
    "time example_engine \<le> tMax example_engine"
    "length (CDF example_engine) = tMax example_engine + 1"
    "0 < tMax example_engine" "0 < beta example_engine"
    "allocatable example_world (length (CDF example_engine))"
    by (simp_all add: step_defs allocatable_def example_defs)
  from saveState_fromFiles_round_trip [OF pre, of 5]
  obtain cf sf d w' where n: "cdf_file_of example_engine example_world = Inr cf"
      "scalars_file_of example_engine example_world = Inr sf"
    and d: "fromFiles (5::nat) cf sf (snd (saveState example_engine example_world)) = (Inr d, w')"
    and p: "time d = time example_engine" "beta d = beta example_engine"
      "tMax d = tMax example_engine" "sys_id d = sys_id example_engine"
      "save_dir d = save_dir example_engine" "length (CDF d) = tMax example_engine + 1"
      "\<forall>n\<le>time example_engine. CDF d ! n = CDF example_engine ! n"
      "\<forall>n. time example_engine < n \<and> n \<le> tMax example_engine \<longrightarrow> CDF d ! n = 0"
    by blast
  from n names have cfsf: "cf = ''./CDF7.txt''" "sf = ''./Scalars7.json''"
    by simp_all
  from p(7) have "CDF d ! 0 = CDF example_engine ! 0" "CDF d ! 1 = CDF example_engine ! 1"
    by (simp_all add: example_engine_def)
  moreover from p(8) have "CDF d ! 2 = 0"
    by (simp add: example_engine_def)
  ultimately show ?thesis
    using d p(1-6) pre(2) unfolding cfsf by (simp add: example_engine_def)
qed

subsection \<open>Batched quantile search\<close>

text \<open>Claim C4. For quantiles given in strictly ascending order with
  \<^verbatim>\<open>descending=False\<close>, \<^verbatim>\<open>findQuantiles\<close> returns the positions in the order of the
  input, each equal to \<^verbatim>\<open>findQuantile\<close> of that quantile on the same state.\<close>

theorem findQuantiles_ascending_order:
  assumes "sorted_wrt (<) quantiles"
  shows "findQuantiles fq k quantiles False = map (findQuantile fq k) quantiles"
proof -
  from assms have "sorted quantiles"
    by (simp add: strict_sorted_iff)
  then have "sort quantiles = quantiles"
    by (rule sorted_sort_id)
  then show ?thesis
    by (simp add: findQuantiles_def kernel_findQuantiles_def Let_def rev_map)
qed

theorem findQuantiles_ascending_order_witness:
  "findQuantiles example_search example_engine [2, 10, 100] False
     = [findQuantile example_search example_engine 2,
        findQuantile example_search example_engine 10,
        findQuantile example_search example_engine 100]"
  using findQuantiles_ascending_order [of "[2, 10, 100]" example_search example_engine]
  by simp

subsection \<open>Flushing of the CSV rows\<close>

text \<open>The loops of \<^verbatim>\<open>evolveAndGetVariance\<close> and \<^verbatim>\<open>evolveAndGetProbAndV\<close> flush every
  row: entered with an empty buffer, they leave an empty buffer, whether they finish or
  an exception ends them.\<close>

lemma evolveAndGetVariance_loop_flushed:
  "h_pending f = [] \<Longrightarrow>
     h_pending (fst (snd (evolveAndGetVariance_loop upd fq gv ts nParticles f s w))) = []"
proof (induction ts arbitrary: f s w)
  case Nil
  then show ?case by simp
next
  case (Cons t ts)
  obtain r s1 w1 where e: "evolveToTime upd t s w = (r, s1, w1)"
    by (cases "evolveToTime upd t s w") auto
  show ?case
  proof (cases r)
    case (Some err)
    with e Cons.prems show ?thesis by simp
  next
    case None
    with e show ?thesis
      by (simp add: Let_def csv_flush_def Cons.IH split: prod.splits)
  qed
qed

lemma evolveAndGetProbAndV_loop_flushed:
  "h_pending f = [] \<Longrightarrow>
     h_pending (fst (snd (evolveAndGetProbAndV_loop upd pv quantile ts f s w))) = []"
proof (induction ts arbitrary: f s w)
  case Nil
  then show ?case by simp
next
  case (Cons t ts)
  obtain r s1 w1 where e: "evolveToTime upd t s w = (r, s1, w1)"
    by (cases "evolveToTime upd t s w") auto
  show ?case
  proof (cases r)
    case (Some err)
    with e Cons.prems show ?thesis by simp
  next
    case None
    with e show ?thesis
      by (simp add: Let_def csv_flush_def Cons.IH split: prod.splits)
  qed
qed

text \<open>The loop of \<^verbatim>\<open>evolveAndSaveQuantile\<close> flushes nothing: when it finishes, the
  buffer has grown by one row per time.\<close>

lemma evolveAndSaveQuantile_loop_pending:
  "fst (evolveAndSaveQuantile_loop upd fq ts quantiles f s w) = None \<Longrightarrow>
     length (h_pending (fst (snd (evolveAndSaveQuantile_loop upd fq ts quantiles f s w))))
       = length (h_pending f) + length ts"
proof (induction ts arbitrary: quantiles f s w)
  case Nil
  then show ?case by simp
next
  case (Cons t ts)
  obtain r s1 w1 where e: "evolveToTime upd t s w = (r, s1, w1)"
    by (cases "evolveToTime upd t s w") auto
  show ?case
  proof (cases r)
    case (Some err)
    with e Cons.prems show ?thesis by simp
  next
    case None
    with e Cons.prems Cons.IH show ?thesis
      by (simp add: Let_def csv_writerow_def)
  qed
qed

text \<open>Claim C7 fails on \<^verbatim>\<open>evolveAndSaveQuantile\<close>. On the fresh example engine, with times
  \<open>[1, 2]\<close>, quantiles \<open>[2, 4]\<close> and the new file \<^verbatim>\<open>q.csv\<close>, the loop finishes without an
  exception; at its end, before \<^verbatim>\<open>f.close()\<close>, the header and both rows are still in the
  buffer and the file holds no row.\<close>

theorem evolveAndSaveQuantile_rows_unflushed:
  "fst (evolveAndSaveQuantile_loop example_update example_search [1, 2] [2, 4]
         (csv_writerow (fst (csv_open ''q.csv'' fresh_world)) [CStr ''time'', CStr ''2'', CStr ''4''])
         fresh_engine (snd (csv_open ''q.csv'' fresh_world))) = None
   \<and> h_pending (fst (snd (evolveAndSaveQuantile_loop example_update example_search [1, 2] [2, 4]
         (csv_writerow (fst (csv_open ''q.csv'' fresh_world)) [CStr ''time'', CStr ''2'', CStr ''4''])
         fresh_engine (snd (csv_open ''q.csv'' fresh_world)))))
       = [[CStr ''time'', CStr ''2'', CStr ''4''], [CInt 1, CInt 1, CInt 1], [CInt 2, CInt 2, CInt 2]]
   \<and> files (snd (snd (snd (evolveAndSaveQuantile_loop example_update example_search [1, 2] [2, 4]
         (csv_writerow (fst (csv_open ''q.csv'' fresh_world)) [CStr ''time'', CStr ''2'', CStr ''4''])
         fresh_engine (snd (csv_open ''q.csv'' fresh_world)))))) ''q.csv'' = Some (CsvFile [])"
  by (simp add: evolveToTime.simps iterateTimeStep_def throttled_save_def process_time_def
        kernel_iterateTimeStep_def example_update_def example_search_def findQuantiles_def
        kernel_findQuantiles_def findQuantile_def csv_open_def csv_writerow_def write_file_def
        Let_def fresh_engine_def fresh_world_def example_world_def)

end
